theory Spec2Isabelle
  imports Complex_Main
begin

text \<open>
  A model of \<open>model_optimized.py\<close>, the training pipeline of the DDoS flow classifier:
  the schema normalizer, the label standardizer, the numeric cleaning and the train/test
  split of \<open>preprocess_unified_data\<close>, the model search of \<open>train_best_model\<close>,
  \<open>save_model_and_scaler\<close> and \<open>predict_with_confidence\<close>. The learning algorithms and
  the random number generator are library code: they appear as parameters.
\<close>

section \<open>Strings: the Python string operations the pipeline uses\<close>

text \<open>
  Column names and labels are Python \<open>str\<close> values. They are modelled as \<open>string\<close>
  (a list of 8-bit characters), so the model covers ASCII text: \<open>str.strip()\<close> removes
  the ASCII characters for which \<open>str.isspace()\<close> holds (codes 9 to 13, 28 to 31 and 32),
  and \<open>str.lower()\<close> / \<open>str.upper()\<close> change the 26 ASCII letters and nothing else.
\<close>

definition is_space :: "char \<Rightarrow> bool" where
  "is_space c = (c = CHR '' '' \<or> c = CHR 0x09 \<or> c = CHR 0x0A \<or> c = CHR 0x0B \<or> c = CHR 0x0C
     \<or> c = CHR 0x0D \<or> c = CHR 0x1C \<or> c = CHR 0x1D \<or> c = CHR 0x1E \<or> c = CHR 0x1F)"

definition strip :: "string \<Rightarrow> string" where
  "strip s = rev (dropWhile is_space (rev (dropWhile is_space s)))"

definition upper_letters :: string where
  "upper_letters = ''ABCDEFGHIJKLMNOPQRSTUVWXYZ''"

definition lower_letters :: string where
  "lower_letters = ''abcdefghijklmnopqrstuvwxyz''"

definition lower_char :: "char \<Rightarrow> char" where
  "lower_char c = (case map_of (zip upper_letters lower_letters) c of Some d \<Rightarrow> d | None \<Rightarrow> c)"

definition upper_char :: "char \<Rightarrow> char" where
  "upper_char c = (case map_of (zip lower_letters upper_letters) c of Some d \<Rightarrow> d | None \<Rightarrow> c)"

definition lower :: "string \<Rightarrow> string" where
  "lower s = map lower_char s"

definition upper :: "string \<Rightarrow> string" where
  "upper s = map upper_char s"

text \<open>\<open>s.replace(' ', '_')\<close>: every blank becomes an underscore.\<close>

definition replace_blank :: "string \<Rightarrow> string" where
  "replace_blank s = map (\<lambda>c. if c = CHR '' '' then CHR ''_'' else c) s"

fun starts_with :: "string \<Rightarrow> string \<Rightarrow> bool" where
  "starts_with [] s = True"
| "starts_with (p # ps) [] = False"
| "starts_with (p # ps) (c # cs) = (p = c \<and> starts_with ps cs)"

text \<open>Python's \<open>sub in s\<close> on strings: \<open>sub\<close> occurs in \<open>s\<close> as a contiguous run.\<close>

fun contains :: "string \<Rightarrow> string \<Rightarrow> bool" where
  "contains sub [] = (sub = [])"
| "contains sub (c # cs) = (starts_with sub (c # cs) \<or> contains sub cs)"

section \<open>Schema normalizer: \<open>normalize_column_names\<close>\<close>

text \<open>
  \<open>self.column_mappings\<close>, the dict literal of \<open>__init__\<close>, in source order. A dict literal
  with a repeated key keeps the last value, so a lookup reads the reversed list.
\<close>

definition column_mappings_items :: "(string \<times> string) list" where
  "column_mappings_items = [
     (''Flow Packets/s'', ''flow_pkts_s''),
     (''Packet Length Mean'', ''pkt_len_mean''),
     (''Flow IAT Mean'', ''flow_iat_mean''),
     (''SYN Flag Count'', ''syn_flag_cnt''),
     (''ACK Flag Count'', ''ack_flag_cnt''),
     (''RST Flag Count'', ''rst_flag_cnt''),
     (''FIN Flag Count'', ''fin_flag_cnt''),
     (''Flow Duration'', ''flow_duration''),
     (''Flow Bytes/s'', ''flow_byts_s''),
     (''Down/Up Ratio'', ''down_up_ratio''),
     (''Fwd Packets/s'', ''fwd_pkts_s''),
     (''Bwd Packets/s'', ''bwd_pkts_s''),
     (''Flow IAT Std'', ''flow_iat_std''),
     (''Source IP'', ''src_ip''),
     (''Protocol'', ''protocol''),
     (''Label'', ''label''),
     (''Timestamp'', ''timestamp''),
     (''Total Fwd Packets'', ''tot_fwd_pkts''),
     (''Total Backward Packets'', ''tot_bwd_pkts''),
     (''Total Length of Fwd Packets'', ''totlen_fwd_pkts''),
     (''Total Length of Bwd Packets'', ''totlen_bwd_pkts''),
     (''Fwd Packet Length Max'', ''fwd_pkt_len_max''),
     (''Fwd Packet Length Min'', ''fwd_pkt_len_min''),
     (''Fwd Packet Length Mean'', ''fwd_pkt_len_mean''),
     (''Fwd Packet Length Std'', ''fwd_pkt_len_std''),
     (''Bwd Packet Length Max'', ''bwd_pkt_len_max''),
     (''Bwd Packet Length Min'', ''bwd_pkt_len_min''),
     (''Bwd Packet Length Mean'', ''bwd_pkt_len_mean''),
     (''Bwd Packet Length Std'', ''bwd_pkt_len_std''),
     (''Packet Length Max'', ''pkt_len_max''),
     (''Packet Length Min'', ''pkt_len_min''),
     (''Packet Length Std'', ''pkt_len_std''),
     (''Packet Length Variance'', ''pkt_len_var''),
     (''FIN Flag Count'', ''fin_flag_cnt''),
     (''SYN Flag Count'', ''syn_flag_cnt''),
     (''RST Flag Count'', ''rst_flag_cnt''),
     (''PSH Flag Count'', ''psh_flag_cnt''),
     (''ACK Flag Count'', ''ack_flag_cnt''),
     (''URG Flag Count'', ''urg_flag_cnt''),
     (''CWE Flag Count'', ''cwr_flag_count''),
     (''ECE Flag Count'', ''ece_flag_cnt''),
     (''Init_Win_bytes_forward'', ''init_fwd_win_byts''),
     (''Init_Win_bytes_backward'', ''init_bwd_win_byts''),
     (''act_data_pkt_fwd'', ''fwd_act_data_pkts''),
     (''min_seg_size_forward'', ''fwd_seg_size_min''),
     (''Active Mean'', ''active_mean''),
     (''Active Std'', ''active_std''),
     (''Active Max'', ''active_max''),
     (''Active Min'', ''active_min''),
     (''Idle Mean'', ''idle_mean''),
     (''Idle Std'', ''idle_std''),
     (''Idle Max'', ''idle_max''),
     (''Idle Min'', ''idle_min''),
     (''src_ip'', ''src_ip''), (''dst_ip'', ''dst_ip''),
     (''src_port'', ''src_port''), (''dst_port'', ''dst_port''),
     (''protocol'', ''protocol''), (''timestamp'', ''timestamp''),
     (''flow_duration'', ''flow_duration''), (''flow_byts_s'', ''flow_byts_s''),
     (''flow_pkts_s'', ''flow_pkts_s''), (''fwd_pkts_s'', ''fwd_pkts_s''),
     (''bwd_pkts_s'', ''bwd_pkts_s''), (''pkt_len_mean'', ''pkt_len_mean''),
     (''flow_iat_mean'', ''flow_iat_mean''), (''flow_iat_std'', ''flow_iat_std''),
     (''fin_flag_cnt'', ''fin_flag_cnt''), (''syn_flag_cnt'', ''syn_flag_cnt''),
     (''rst_flag_cnt'', ''rst_flag_cnt''), (''ack_flag_cnt'', ''ack_flag_cnt''),
     (''down_up_ratio'', ''down_up_ratio''), (''label'', ''label'')]"

definition column_mappings :: "string \<Rightarrow> string option" where
  "column_mappings = map_of (rev column_mappings_items)"

text \<open>
  A table: its column labels and its rows of cells. The cell type is left open, the
  normalizer never looks at a cell.
\<close>

record 'a dataframe =
  columns :: "string list"
  cells :: "'a list list"

text \<open>
  The first statement of \<open>normalize_column_names\<close>,
  \<^verbatim>\<open>df.columns = df.columns.str.strip().str.replace(' ', '_').str.lower()\<close>,
  applied to one label.
\<close>

definition clean_name :: "string \<Rightarrow> string" where
  "clean_name c = lower (replace_blank (strip c))"

text \<open>
  One round of the \<open>for col in df.columns\<close> loop: the \<open>if\<close>/\<open>elif\<close> chain, in the
  source's order, adds at most one entry to \<open>current_mapping\<close>.
\<close>

definition map_column :: "(string \<Rightarrow> string option) \<Rightarrow> string \<Rightarrow> (string \<Rightarrow> string option)" where
  "map_column current_mapping col =
     (case column_mappings col of
        Some target \<Rightarrow> current_mapping(col \<mapsto> target)
      | None \<Rightarrow>
         if contains ''source'' col \<and> contains ''ip'' col then current_mapping(col \<mapsto> ''src_ip'')
         else if contains ''destination'' col \<and> contains ''ip'' col then current_mapping(col \<mapsto> ''dst_ip'')
         else if contains ''source'' col \<and> contains ''port'' col then current_mapping(col \<mapsto> ''src_port'')
         else if contains ''destination'' col \<and> contains ''port'' col then current_mapping(col \<mapsto> ''dst_port'')
         else if col = ''class'' \<or> col = ''attack'' \<or> col = ''type'' then current_mapping(col \<mapsto> ''label'')
         else current_mapping)"

text \<open>\<open>df.rename(columns=current_mapping)\<close>: a label with an entry is replaced, any other kept.\<close>

definition rename :: "(string \<Rightarrow> string option) \<Rightarrow> string list \<Rightarrow> string list" where
  "rename current_mapping cols =
     map (\<lambda>c. case current_mapping c of Some t \<Rightarrow> t | None \<Rightarrow> c) cols"

text \<open>
  \<open>normalize_column_names\<close> assigns to \<open>df.columns\<close> of the table it was given and returns
  what \<open>df.rename\<close> builds, a new table. The model returns both: first the caller's table
  as the call leaves it, second the returned table.
\<close>

definition normalize_column_names :: "'a dataframe \<Rightarrow> 'a dataframe \<times> 'a dataframe" where
  "normalize_column_names df =
     (let df1 = df\<lparr>columns := map clean_name (columns df)\<rparr>;
          current_mapping = foldl map_column Map.empty (columns df1)
      in (df1, df1\<lparr>columns := rename current_mapping (columns df1)\<rparr>))"

section \<open>Label standardizer\<close>

text \<open>
  \<open>load_all_datasets\<close> brings every label to \<open>str(label).strip().upper()\<close>;
  \<open>preprocess_unified_data\<close> then applies \<open>label_mapping\<close> with
  \<^verbatim>\<open>df[target].map(label_mapping).fillna(df[target])\<close>: a token without an entry is kept.
\<close>

definition label_mapping :: "(string \<times> string) list" where
  "label_mapping = [
     (''BENIGN'', ''BENIGN''),
     (''NORMAL'', ''BENIGN''),
     (''DNS'', ''DNS''),
     (''NTP'', ''NTP''),
     (''HTTP'', ''HTTP''),
     (''LDAP'', ''LDAP''),
     (''MSSQL'', ''MSSQL''),
     (''NETBIOS'', ''NetBIOS''),
     (''NETBIOS_NAME_SERVICE'', ''NetBIOS''),
     (''PORTMAP'', ''Portmap''),
     (''RECURSIVE_GET'', ''RECURSIVE_GET''),
     (''SLOWLORIS'', ''SLOWLORIS''),
     (''SLOW_POST'', ''SLOW_POST''),
     (''SYN'', ''SYN''),
     (''UDP'', ''UDP''),
     (''UDPLAG'', ''UDPLag''),
     (''DDOS'', ''UDP''),
     (''ATTACK'', ''UDP''),
     (''FLOOD'', ''UDP'')]"

definition clean_label :: "string \<Rightarrow> string" where
  "clean_label l = upper (strip l)"

definition map_label :: "string \<Rightarrow> string" where
  "map_label l = (case map_of label_mapping l of Some v \<Rightarrow> v | None \<Rightarrow> l)"

definition standardize :: "string \<Rightarrow> string" where
  "standardize l = map_label (clean_label l)"

definition standardize_labels :: "string list \<Rightarrow> string list" where
  "standardize_labels ls = map standardize ls"

section \<open>Dataset cleaner: step 7 of \<open>preprocess_unified_data\<close>\<close>

text \<open>
  The feature matrix \<open>X\<close> entering step 7 is numeric. A cell is a float: a number,
  \<open>NaN\<close> (missing) or an infinity. Numbers are exact rationals here; the rounding and the
  overflow of float32 arithmetic are not modelled. A frame is the list of its columns, each
  with its label; labels are taken to be distinct.
\<close>

datatype fval = NaN | NInf | PInf | Fin rat

type_synonym 'a frame = "(string \<times> 'a list) list"

definition on_columns :: "('a list \<Rightarrow> 'b list) \<Rightarrow> 'a frame \<Rightarrow> 'b frame" where
  "on_columns f X = map (\<lambda>(name, col). (name, f col)) X"

text \<open>
  \<open>X.median()\<close> skips \<open>NaN\<close> and takes the middle of the sorted remaining values, or the
  mean of the two middle ones. The values other than \<open>NaN\<close> in ascending order: the negative
  infinities, the numbers, the positive infinities.
\<close>

definition sorted_values :: "fval list \<Rightarrow> fval list" where
  "sorted_values col =
     replicate (count_list col NInf) NInf
     @ map Fin (sort (concat (map (\<lambda>v. case v of Fin x \<Rightarrow> [x] | _ \<Rightarrow> []) col)))
     @ replicate (count_list col PInf) PInf"

text \<open>The float mean of two values: \<open>inf + (-inf)\<close> is \<open>NaN\<close>.\<close>

fun mean2 :: "fval \<Rightarrow> fval \<Rightarrow> fval" where
  "mean2 (Fin a) (Fin b) = Fin ((a + b) / 2)"
| "mean2 NaN b = NaN"
| "mean2 a NaN = NaN"
| "mean2 PInf NInf = NaN"
| "mean2 NInf PInf = NaN"
| "mean2 PInf b = PInf"
| "mean2 a PInf = PInf"
| "mean2 NInf b = NInf"
| "mean2 a NInf = NInf"

definition median :: "fval list \<Rightarrow> fval" where
  "median col =
     (let vs = sorted_values col; n = length vs
      in if n = 0 then NaN
         else if odd n then vs ! (n div 2)
         else mean2 (vs ! (n div 2 - 1)) (vs ! (n div 2)))"

text \<open>\<open>X.fillna(X.median())\<close> on one column. Filling with \<open>NaN\<close> changes nothing.\<close>

definition fillna :: "fval list \<Rightarrow> fval \<Rightarrow> fval list" where
  "fillna col m = map (\<lambda>v. if v = NaN then m else v) col"

text \<open>
  \<open>X.replace([np.inf, -np.inf], np.nan)\<close>: from here on a cell is a number or missing,
  which the type \<open>rat option\<close> records (\<open>None\<close> is \<open>NaN\<close>).
\<close>

fun replace_inf :: "fval \<Rightarrow> rat option" where
  "replace_inf (Fin x) = Some x"
| "replace_inf v = None"

definition somes :: "'a option list \<Rightarrow> 'a list" where
  "somes col = concat (map (\<lambda>v. case v of Some x \<Rightarrow> [x] | None \<Rightarrow> []) col)"

definition median_finite :: "rat option list \<Rightarrow> rat option" where
  "median_finite col =
     (let vs = sort (somes col); n = length vs
      in if n = 0 then None
         else if odd n then Some (vs ! (n div 2))
         else Some ((vs ! (n div 2 - 1) + vs ! (n div 2)) / 2))"

definition fillna_finite :: "rat option list \<Rightarrow> rat option \<Rightarrow> rat option list" where
  "fillna_finite col m = map (\<lambda>v. case v of None \<Rightarrow> m | Some x \<Rightarrow> Some x) col"

text \<open>
  \<open>X.std() == 0\<close>: the sample standard deviation (one degree of freedom removed, missing
  cells skipped) is \<open>NaN\<close> on fewer than two values. It is the square root of the variance,
  so it is zero exactly when the variance is.
\<close>

definition mean :: "rat list \<Rightarrow> rat" where
  "mean vs = sum_list vs / of_nat (length vs)"

definition variance :: "rat list \<Rightarrow> rat option" where
  "variance vs =
     (if length vs < 2 then None
      else Some (sum_list (map (\<lambda>x. (x - mean vs) ^ 2) vs) / of_nat (length vs - 1)))"

definition std_is_zero :: "rat option list \<Rightarrow> bool" where
  "std_is_zero col = (variance (somes col) = Some 0)"

text \<open>
  \<open>X.quantile(q)\<close> with the default linear interpolation: the value at the fractional
  position \<open>q * (n - 1)\<close> of the sorted present values, \<open>NaN\<close> when none is present.
\<close>

definition interp :: "rat list \<Rightarrow> rat \<Rightarrow> rat" where
  "interp vs pos =
     (let lo = nat \<lfloor>pos\<rfloor>; hi = min (lo + 1) (length vs - 1); frac = pos - of_nat lo
      in vs ! lo + (vs ! hi - vs ! lo) * frac)"

definition quantile :: "rat \<Rightarrow> rat option list \<Rightarrow> rat option" where
  "quantile q col =
     (let vs = sort (somes col); n = length vs
      in if n = 0 then None else Some (interp vs (q * of_nat (n - 1))))"

text \<open>
  \<open>lower_bound = Q1 - 3 * IQR\<close> and \<open>upper_bound = Q3 + 3 * IQR\<close> with \<open>IQR = Q3 - Q1\<close>;
  float arithmetic on \<open>NaN\<close> gives \<open>NaN\<close>.
\<close>

definition lower_bound :: "rat option list \<Rightarrow> rat option" where
  "lower_bound col =
     (case (quantile (1/4) col, quantile (3/4) col) of
        (Some q1, Some q3) \<Rightarrow> Some (q1 - 3 * (q3 - q1))
      | _ \<Rightarrow> None)"

definition upper_bound :: "rat option list \<Rightarrow> rat option" where
  "upper_bound col =
     (case (quantile (1/4) col, quantile (3/4) col) of
        (Some q1, Some q3) \<Rightarrow> Some (q3 + 3 * (q3 - q1))
      | _ \<Rightarrow> None)"

text \<open>
  \<open>X.clip(lower=lower_bound, upper=upper_bound, axis=1)\<close> clips at the lower bound first,
  then at the upper one. A missing cell stays missing and a missing bound does not clip.
\<close>

definition clip_lower :: "rat option \<Rightarrow> rat option \<Rightarrow> rat option" where
  "clip_lower bound v =
     (case (v, bound) of (Some x, Some l) \<Rightarrow> if l \<le> x then Some x else Some l | _ \<Rightarrow> v)"

definition clip_upper :: "rat option \<Rightarrow> rat option \<Rightarrow> rat option" where
  "clip_upper bound v =
     (case (v, bound) of (Some x, Some u) \<Rightarrow> if x \<le> u then Some x else Some u | _ \<Rightarrow> v)"

definition clip_column :: "rat option list \<Rightarrow> rat option list" where
  "clip_column col = map (clip_upper (upper_bound col)) (map (clip_lower (lower_bound col)) col)"

text \<open>
  Step 7 as a whole, in the source's order: impute, replace infinities, impute again, drop
  the columns whose label is among the constant ones, clip. The quartiles are taken from
  the whole matrix \<open>X\<close>; the split comes afterwards.
\<close>

definition advanced_data_cleaning :: "fval frame \<Rightarrow> rat option frame" where
  "advanced_data_cleaning X =
     (let X1 = on_columns (\<lambda>col. fillna col (median col)) X;
          X2 = on_columns (map replace_inf) X1;
          X3 = on_columns (\<lambda>col. fillna_finite col (median_finite col)) X2;
          constant_features = map fst (filter (\<lambda>(name, col). std_is_zero col) X3);
          X4 = (if length constant_features > 0
                then filter (\<lambda>(name, col). name \<notin> set constant_features) X3 else X3)
      in on_columns clip_column X4)"

section \<open>Train/test split with fallback\<close>

text \<open>
  \<open>train_test_split(X, y, test_size=0.2, random_state=42, stratify=...)\<close> is library
  code. Its checks are modelled as the library documents them; the draws of the generator
  seeded with 42 are a parameter: the permutation of \<open>range(n)\<close> that an unstratified
  split uses, and the train and test indices a stratified split picks.
\<close>

datatype error = ValueError | EstimatorError

record random_state =
  permutation :: "nat \<Rightarrow> nat list"
  stratified_indices :: "string list \<Rightarrow> nat \<Rightarrow> nat \<Rightarrow> nat list \<times> nat list"

text \<open>Row selection by position; the positions come from the generator and are in range.\<close>

definition take_rows :: "nat list \<Rightarrow> 'a list \<Rightarrow> 'a list" where
  "take_rows idx col = map (\<lambda>i. col ! i) idx"

definition select_rows :: "nat list \<Rightarrow> 'a frame \<Rightarrow> 'a frame" where
  "select_rows idx X = on_columns (take_rows idx) X"

text \<open>
  The sizes: \<open>n_test = ceil(0.2 * n_samples)\<close>, \<open>n_train = n_samples - n_test\<close>, and a
  \<open>ValueError\<close> when the training set would be empty. The product is exact here.
\<close>

definition validate_shuffle_split :: "nat \<Rightarrow> error + nat \<times> nat" where
  "validate_shuffle_split n_samples =
     (let n_test = nat \<lceil>(1/5 :: rat) * of_nat n_samples\<rceil>;
          n_train = n_samples - n_test
      in if n_train = 0 then Inl ValueError else Inr (n_train, n_test))"

definition class_counts :: "string list \<Rightarrow> nat list" where
  "class_counts y = map (count_list y) (remdups y)"

type_synonym 'a split = "'a frame \<times> 'a frame \<times> string list \<times> string list"

text \<open>
  A stratified split raises \<open>ValueError\<close> when the least populated class has fewer than
  two members, or when either part is smaller than the number of classes. The result is
  \<open>(X_train, X_test, y_train, y_test)\<close>; \<open>X\<close> and \<open>y\<close> have the same number of rows.
\<close>

definition train_test_split ::
  "random_state \<Rightarrow> bool \<Rightarrow> 'a frame \<Rightarrow> string list \<Rightarrow> error + 'a split" where
  "train_test_split rs stratify X y =
     (case validate_shuffle_split (length y) of
        Inl e \<Rightarrow> Inl e
      | Inr (n_train, n_test) \<Rightarrow>
          if stratify then
            (let counts = class_counts y; n_classes = length counts
             in if \<exists>c \<in> set counts. c < 2 then Inl ValueError
                else if n_train < n_classes then Inl ValueError
                else if n_test < n_classes then Inl ValueError
                else (case stratified_indices rs y n_train n_test of
                        (train, test) \<Rightarrow>
                          Inr (select_rows train X, select_rows test X,
                               take_rows train y, take_rows test y)))
          else
            (let p = permutation rs (length y);
                 test = take n_test p;
                 train = take n_train (drop n_test p)
             in Inr (select_rows train X, select_rows test X,
                     take_rows train y, take_rows test y)))"

text \<open>
  The \<open>try\<close> / \<open>except ValueError\<close> of \<open>preprocess_unified_data\<close>: both calls pass
  \<open>random_state=42\<close>, so both read the same generator. Nothing catches what the second
  call raises.
\<close>

definition split_with_fallback :: "random_state \<Rightarrow> 'a frame \<Rightarrow> string list \<Rightarrow> error + 'a split" where
  "split_with_fallback rs X y =
     (case train_test_split rs True X y of
        Inr r \<Rightarrow> Inr r
      | Inl ValueError \<Rightarrow> train_test_split rs False X y
      | Inl e \<Rightarrow> Inl e)"

section \<open>Model search: \<open>train_best_model\<close>\<close>

text \<open>
  The learners are black boxes. For each name of the \<open>models\<close> dict, \<open>fit_and_score\<close>
  stands for the body of the \<open>try\<close>: \<open>None\<close> when the grid search, the fit or the
  evaluation raises, else the weighted F1 on the held-out split. \<open>ensemble_score\<close> is the
  same for the voting ensemble, which the source fits and evaluates outside any \<open>try\<close>.
  Of a \<open>results\<close> entry only \<open>test_f1\<close> is kept, the one field that is read again.
\<close>

datatype estimator = Fitted string | Voting "(string \<times> estimator) list"

record search_state =
  best_model :: "estimator option"
  best_score :: rat
  best_model_name :: string
  results :: "(string \<times> rat) list"

text \<open>The keys of \<open>models\<close> in insertion order, for a training set of \<open>n_train\<close> rows.\<close>

definition models :: "nat \<Rightarrow> string list" where
  "models n_train =
     [''Optimized Random Forest'', ''XGBoost'', ''Gradient Boosting'', ''Extra Trees'']
     @ (if n_train > 10000 then [''Neural Network''] else [])
     @ (if n_train < 50000 then [''Optimized SVM''] else [])"

text \<open>\<open>d[k] = v\<close> on an insertion-ordered dict.\<close>

fun dict_set :: "'k \<Rightarrow> 'v \<Rightarrow> ('k \<times> 'v) list \<Rightarrow> ('k \<times> 'v) list" where
  "dict_set k v [] = [(k, v)]"
| "dict_set k v ((k', v') # d) = (if k' = k then (k, v) # d else (k', v') # dict_set k v d)"

text \<open>\<open>best_model, best_score, best_model_name = None, 0, ""\<close> and \<open>results = {}\<close>.\<close>

definition initial_state :: search_state where
  "initial_state = \<lparr>best_model = None, best_score = 0, best_model_name = [], results = []\<rparr>"

text \<open>One round of \<open>for name, setup in models.items()\<close>.\<close>

definition train_one :: "(string \<Rightarrow> rat option) \<Rightarrow> search_state \<Rightarrow> string \<Rightarrow> search_state" where
  "train_one fit_and_score st name =
     (case fit_and_score name of
        None \<Rightarrow> st
      | Some f1 \<Rightarrow>
          (let st1 = st\<lparr>results := dict_set name f1 (results st)\<rparr>
           in if f1 > best_score st
              then st1\<lparr>best_score := f1, best_model := Some (Fitted name), best_model_name := name\<rparr>
              else st1))"

text \<open>
  \<open>sorted(results.items(), key=lambda x: x[1]['test_f1'], reverse=True)[:3]\<close>: Python's
  sort is stable also when reversed, as sorting by the negated key is.
\<close>

definition top_models :: "(string \<times> rat) list \<Rightarrow> (string \<times> rat) list" where
  "top_models res = take 3 (sort_key (\<lambda>x. - snd x) res)"

definition voting_models :: "(string \<times> rat) list \<Rightarrow> (string \<times> estimator) list" where
  "voting_models res = map (\<lambda>(name, f1). (replace_blank name, Fitted name)) (top_models res)"

definition train_best_model ::
  "nat \<Rightarrow> (string \<Rightarrow> rat option) \<Rightarrow> ((string \<times> estimator) list \<Rightarrow> rat option)
     \<Rightarrow> error + search_state" where
  "train_best_model n_train fit_and_score ensemble_score =
     (let st = foldl (train_one fit_and_score) initial_state (models n_train)
      in if length (results st) \<ge> 3
         then (case ensemble_score (voting_models (results st)) of
                 None \<Rightarrow> Inl EstimatorError
               | Some f1_ensemble \<Rightarrow>
                   (let st1 = st\<lparr>results := dict_set ''Ensemble'' f1_ensemble (results st)\<rparr>
                    in Inr (if f1_ensemble > best_score st
                            then st1\<lparr>best_score := f1_ensemble,
                                     best_model := Some (Voting (voting_models (results st))),
                                     best_model_name := ''Ensemble''\<rparr>
                            else st1)))
         else Inr st)"

text \<open>What the function reports as selected: model, score and name.\<close>

definition selection :: "search_state \<Rightarrow> estimator option \<times> rat \<times> string" where
  "selection st = (best_model st, best_score st, best_model_name st)"

text \<open>
  The selection rule in the specification's words. The candidates that succeeded, in the
  order of evaluation, each with its held-out weighted F1:
\<close>

definition successes :: "string list \<Rightarrow> (string \<Rightarrow> rat option) \<Rightarrow> (string \<times> rat) list" where
  "successes names fit_and_score =
     concat (map (\<lambda>name. case fit_and_score name of None \<Rightarrow> [] | Some f1 \<Rightarrow> [(name, f1)]) names)"

text \<open>the first of them whose F1 no other exceeds:\<close>

definition first_highest :: "(string \<times> rat) list \<Rightarrow> (string \<times> rat) option" where
  "first_highest succ = find (\<lambda>p. \<forall>q \<in> set succ. snd q \<le> snd p) succ"

text \<open>and the provisional best: that candidate, when its F1 is positive.\<close>

definition provisional_best :: "(string \<times> rat) list \<Rightarrow> estimator option \<times> rat \<times> string" where
  "provisional_best succ =
     (case first_highest succ of
        None \<Rightarrow> (None, 0, [])
      | Some (name, f1) \<Rightarrow> if 0 < f1 then (Some (Fitted name), f1, name) else (None, 0, []))"

section \<open>Artifact store: \<open>save_model_and_scaler\<close>\<close>

text \<open>
  The attributes of \<open>self\<close> that the function reads. Fitted objects are opaque values of
  a type \<open>'obj\<close>; an attribute that can be \<open>None\<close> is an option. A fitted estimator or
  scaler is truthy, so \<open>self.best_model and self.scaler\<close> asks whether both are set.
\<close>

record 'obj analysis =
  self_best_model :: "'obj option"
  self_scaler :: "'obj option"
  self_feature_columns :: "string list option"
  self_label_encoders :: "(string \<times> 'obj) list"
  self_original_network_data :: "(string \<times> 'obj option) list"
  self_column_mappings :: "(string \<times> string) list"
  self_feature_selector :: "'obj option"
  self_pca :: "'obj option"

record 'obj metadata =
  md_feature_columns :: "string list option"
  md_label_encoders :: "(string \<times> 'obj) list"
  md_original_network_data :: "(string \<times> 'obj option) list"
  md_column_mappings :: "(string \<times> string) list"
  md_feature_selector :: "'obj option"
  md_pca :: "'obj option"

definition metadata_of :: "'obj analysis \<Rightarrow> 'obj metadata" where
  "metadata_of self =
     \<lparr>md_feature_columns = self_feature_columns self,
      md_label_encoders = self_label_encoders self,
      md_original_network_data = self_original_network_data self,
      md_column_mappings = self_column_mappings self,
      md_feature_selector = self_feature_selector self,
      md_pca = self_pca self\<rparr>"

text \<open>
  The file system maps a path to what was pickled there. \<open>joblib.dump(obj, path)\<close> stores
  \<open>obj\<close> under \<open>path\<close>, or raises: the object cannot be pickled, the path cannot be
  written. Which dumps succeed is a parameter, \<open>can_dump\<close>. A dump that raises leaves no
  unit at its path; the model leaves the path as it was.
\<close>

datatype 'obj pickled = Pickle 'obj | PickleMetadata "'obj metadata"

type_synonym 'obj files = "string \<Rightarrow> 'obj pickled option"

datatype dump_error = DumpError

definition dump ::
  "('obj pickled \<Rightarrow> string \<Rightarrow> bool) \<Rightarrow> 'obj pickled \<Rightarrow> string \<Rightarrow> 'obj files
     \<Rightarrow> dump_error + 'obj files" where
  "dump can_dump obj path fs = (if can_dump obj path then Inr (fs(path \<mapsto> obj)) else Inl DumpError)"

text \<open>
  The three dumps run one after the other, with no \<open>try\<close> around them: an exception
  leaves the function at once, and what was dumped before stays. The function returns the
  file system it leaves, and the three paths, three \<open>None\<close>, or the exception.
\<close>

definition save_model_and_scaler ::
  "('obj pickled \<Rightarrow> string \<Rightarrow> bool) \<Rightarrow> 'obj analysis \<Rightarrow> string \<Rightarrow> 'obj files
     \<Rightarrow> 'obj files \<times> (dump_error + string option \<times> string option \<times> string option)" where
  "save_model_and_scaler can_dump self model_name fs =
     (case (self_best_model self, self_scaler self) of
        (Some model, Some scaler) \<Rightarrow>
          (case dump can_dump (Pickle model) (model_name @ ''.pkl'') fs of
             Inl e \<Rightarrow> (fs, Inl e)
           | Inr fs1 \<Rightarrow>
               (case dump can_dump (Pickle scaler) (model_name @ ''_scaler.pkl'') fs1 of
                  Inl e \<Rightarrow> (fs1, Inl e)
                | Inr fs2 \<Rightarrow>
                    (let metadata = metadata_of self
                     in case dump can_dump (PickleMetadata metadata)
                               (model_name @ ''_metadata.pkl'') fs2 of
                          Inl e \<Rightarrow> (fs2, Inl e)
                        | Inr fs3 \<Rightarrow>
                            (fs3, Inr (Some (model_name @ ''.pkl''),
                                       Some (model_name @ ''_scaler.pkl''),
                                       Some (model_name @ ''_metadata.pkl''))))))
      | _ \<Rightarrow> (fs, Inr (None, None, None)))"

section \<open>Inference: \<open>predict_with_confidence\<close>\<close>

text \<open>
  A fitted model: \<open>predict\<close>, and \<open>predict_proba\<close> when \<open>hasattr\<close> finds it. A batch is a
  list of rows; probabilities are exact rationals, one row of class probabilities per input
  row.
\<close>

record 'x classifier =
  predict :: "'x list \<Rightarrow> string list"
  predict_proba :: "('x list \<Rightarrow> rat list list) option"

text \<open>\<open>np.max(probabilities, axis=1)\<close>; the maximum of no values raises \<open>ValueError\<close>.\<close>

fun row_max :: "rat list \<Rightarrow> error + rat" where
  "row_max [] = Inl ValueError"
| "row_max (p # ps) = Inr (fold max ps p)"

fun max_axis1 :: "rat list list \<Rightarrow> error + rat list" where
  "max_axis1 [] = Inr []"
| "max_axis1 (row # rows) =
     (case row_max row of
        Inl e \<Rightarrow> Inl e
      | Inr m \<Rightarrow> (case max_axis1 rows of Inl e \<Rightarrow> Inl e | Inr ms \<Rightarrow> Inr (m # ms)))"

text \<open>The batch \<open>X\<close> goes to the model as it is given; the default confidence is 0.8.\<close>

definition predict_with_confidence ::
  "'x classifier \<Rightarrow> 'x list \<Rightarrow> error + string list \<times> rat list" where
  "predict_with_confidence model X =
     (case predict_proba model of
        Some proba \<Rightarrow>
          (let probabilities = proba X;
               predictions = predict model X
           in case max_axis1 probabilities of
                Inl e \<Rightarrow> Inl e
              | Inr confidences \<Rightarrow> Inr (predictions, confidences))
      | None \<Rightarrow>
          (let predictions = predict model X
           in Inr (predictions, replicate (length predictions) (4/5))))"

text \<open>
  The contract of a supported model on a batch: one prediction per row and, when it has
  \<open>predict_proba\<close>, one non-empty row of probabilities in \<open>[0, 1]\<close> per input row.
\<close>

definition supported_model :: "'x classifier \<Rightarrow> 'x list \<Rightarrow> bool" where
  "supported_model model X =
     (length (predict model X) = length X
      \<and> (case predict_proba model of
           None \<Rightarrow> True
         | Some proba \<Rightarrow>
             length (proba X) = length X
             \<and> (\<forall>row \<in> set (proba X). row \<noteq> [] \<and> (\<forall>p \<in> set row. 0 \<le> p \<and> p \<le> 1))))"

section \<open>Sample inputs\<close>

text \<open>Concrete tables, generators, learners and models on which the results are run.\<close>

definition raw_header_table :: "string dataframe" where
  "raw_header_table = \<lparr>columns = ['' Source IP '', ''Flow Packets/s''], cells = [ [''10.0.0.1'', ''1.5''] ]\<rparr>"

definition clean_header_table :: "string dataframe" where
  "clean_header_table = \<lparr>columns = [''flow_pkts_s'', ''label''], cells = [ [''1.5'', ''ddos''] ]\<rparr>"

text \<open>A generator that leaves the rows in order: the first rows are the test rows.\<close>

definition in_order_state :: random_state where
  "in_order_state =
     \<lparr>permutation = (\<lambda>n. [0..<n]),
      stratified_indices = (\<lambda>y n_train n_test. ([n_test..<n_test + n_train], [0..<n_test]))\<rparr>"

text \<open>Five classes, one of them with a single sample.\<close>

definition scenario_c_labels :: "string list" where
  "scenario_c_labels =
     [''BENIGN'', ''BENIGN'', ''DNS'', ''DNS'', ''NTP'', ''NTP'', ''SYN'', ''SYN'', ''UDP'']"

definition scenario_c_features :: "rat option frame" where
  "scenario_c_features =
     [(''flow_duration'', [Some 1, Some 2, Some 3, Some 4, Some 5, Some 6, Some 7, Some 8, Some 9])]"

definition outlier_column :: "rat option list" where
  "outlier_column = [Some 1, Some 2, Some 3, Some 4, Some 100]"

text \<open>One learner succeeds, with F1 zero; every other raises.\<close>

definition only_xgboost_zero :: "string \<Rightarrow> rat option" where
  "only_xgboost_zero name = (if name = ''XGBoost'' then Some 0 else None)"

definition ensemble_fails :: "(string \<times> estimator) list \<Rightarrow> rat option" where
  "ensemble_fails members = None"

definition example_scores :: "string \<Rightarrow> rat option" where
  "example_scores name =
     (if name = ''XGBoost'' then Some (1/2)
      else if name = ''Gradient Boosting'' then None
      else if name = ''Extra Trees'' then Some (1/2)
      else Some (1/4))"

definition example_ensemble :: "(string \<times> estimator) list \<Rightarrow> rat option" where
  "example_ensemble members = Some (3/4)"

text \<open>A model without \<open>predict_proba\<close> that looks at the first feature of a row.\<close>

definition threshold_model :: "rat list classifier" where
  "threshold_model =
     \<lparr>predict = map (\<lambda>row. case row of [] \<Rightarrow> ''BENIGN''
                               | x # _ \<Rightarrow> if 5 < x then ''UDP'' else ''BENIGN''),
      predict_proba = None\<rparr>"

definition two_class_model :: "rat list classifier" where
  "two_class_model =
     \<lparr>predict = map (\<lambda>row. ''BENIGN''),
      predict_proba = Some (map (\<lambda>row. [7/10, 3/10]))\<rparr>"

definition fitted_analysis :: "string analysis" where
  "fitted_analysis =
     \<lparr>self_best_model = Some ''XGBClassifier'', self_scaler = Some ''RobustScaler'',
      self_feature_columns = Some [''flow_duration''], self_label_encoders = [],
      self_original_network_data = [], self_column_mappings = [],
      self_feature_selector = None, self_pca = None\<rparr>"

text \<open>Every dump succeeds; and: the metadata cannot be pickled, the fitted objects can.\<close>

definition every_dump_succeeds :: "string pickled \<Rightarrow> string \<Rightarrow> bool" where
  "every_dump_succeeds obj path = True"

definition metadata_dump_fails :: "string pickled \<Rightarrow> string \<Rightarrow> bool" where
  "metadata_dump_fails obj path = (case obj of Pickle x \<Rightarrow> True | PickleMetadata m \<Rightarrow> False)"

section \<open>Properties of the string operations\<close>

lemma upper_char_idem: "upper_char (upper_char c) = upper_char c"
  by (simp add: upper_char_def lower_letters_def upper_letters_def)

lemma is_space_upper_char: "is_space (upper_char c) = is_space c"
  by (simp add: upper_char_def lower_letters_def upper_letters_def is_space_def)

lemma upper_idem: "upper (upper s) = upper s"
  by (simp add: upper_def upper_char_idem)

lemma dropWhile_space_upper:
  "dropWhile is_space (upper s) = upper (dropWhile is_space s)"
  by (induction s) (simp_all add: upper_def is_space_upper_char)

lemma strip_upper: "strip (upper s) = upper (strip s)"
proof -
  have "rev (upper s) = upper (rev s)" for s
    by (simp add: upper_def rev_map)
  then show ?thesis
    by (simp add: strip_def dropWhile_space_upper)
qed

lemma dropWhile_fixed: "xs = [] \<or> \<not> P (hd xs) \<Longrightarrow> dropWhile P xs = xs"
  by (cases xs) auto

lemma dropWhile_head: "dropWhile P xs = [] \<or> \<not> P (hd (dropWhile P xs))"
  by (induction xs) auto

lemma strip_fixed:
  assumes "s = [] \<or> (\<not> is_space (hd s) \<and> \<not> is_space (last s))"
  shows "strip s = s"
proof (cases "s = []")
  case True
  then show ?thesis by (simp add: strip_def)
next
  case False
  with assms have h: "\<not> is_space (hd s)" and l: "\<not> is_space (last s)" by auto
  from h False have "dropWhile is_space s = s" by (simp add: dropWhile_fixed)
  moreover from l False have "dropWhile is_space (rev s) = rev s"
    by (simp add: dropWhile_fixed hd_rev)
  ultimately show ?thesis by (simp add: strip_def)
qed

lemma strip_ends: "strip s = [] \<or> (\<not> is_space (hd (strip s)) \<and> \<not> is_space (last (strip s)))"
proof (cases "strip s = []")
  case True
  then show ?thesis by simp
next
  case False
  define t where "t = dropWhile is_space s"
  define u where "u = dropWhile is_space (rev t)"
  have su: "strip s = rev u" by (simp add: strip_def t_def u_def)
  with False have une: "u \<noteq> []" by simp
  then have tne: "t \<noteq> []" by (auto simp: u_def)
  have "\<not> is_space (hd u)" using dropWhile_head [of is_space "rev t"] une
    unfolding u_def by blast
  then have last_ok: "\<not> is_space (last (strip s))" using une by (simp add: su last_rev)
  have "\<not> is_space (hd t)" using dropWhile_head [of is_space s] tne
    unfolding t_def by blast
  moreover have "hd (rev u) = hd t"
  proof -
    obtain ws where "rev t = ws @ u"
      by (metis takeWhile_dropWhile_id u_def)
    then have "t = rev u @ rev ws" by (metis rev_append rev_rev_ident)
    with une show ?thesis by simp
  qed
  ultimately have "\<not> is_space (hd (strip s))" by (simp add: su)
  with last_ok show ?thesis by simp
qed

lemma strip_idem: "strip (strip s) = strip s"
  by (rule strip_fixed) (rule strip_ends)

lemma clean_label_idem: "clean_label (clean_label l) = clean_label l"
  by (simp add: clean_label_def strip_upper strip_idem upper_idem)

section \<open>Label standardizer: results\<close>

lemma label_mapping_values_fixed: "(k, v) \<in> set label_mapping \<Longrightarrow> standardize v = v"
  unfolding label_mapping_def
  apply (simp only: set_simps insert_iff empty_iff prod.inject)
  apply (elim disjE conjE)
  apply (simp_all only:)
  by code_simp+

text \<open>
  Claim C5. Label standardization, the whitespace and case normalization followed by the
  collapsing table with pass-through, is idempotent: standardizing a standardized label
  changes nothing. A token without an entry is its own cleaned form, and cleaning twice is
  cleaning once; every value of the table (also \<open>NetBIOS\<close>, \<open>Portmap\<close> and \<open>UDPLag\<close>, which
  are not upper case) is mapped back to itself.
\<close>

theorem standardize_idempotent: "standardize (standardize l) = standardize l"
proof (cases "map_of label_mapping (clean_label l)")
  case None
  then show ?thesis
    by (simp add: standardize_def map_label_def clean_label_idem)
next
  case (Some v)
  then have "(clean_label l, v) \<in> set label_mapping" by (rule map_of_SomeD)
  then have "standardize v = v" by (rule label_mapping_values_fixed)
  with Some show ?thesis by (simp add: standardize_def map_label_def)
qed

text \<open>
  Claim C6 (scenario B). The labels \<open>normal\<close>, \<open>DDoS\<close>, \<open>ddos\<close> standardize to
  \<open>BENIGN\<close>, \<open>UDP\<close>, \<open>UDP\<close>.
\<close>

theorem standardize_scenario_b:
  "standardize_labels [''normal'', ''DDoS'', ''ddos''] = [''BENIGN'', ''UDP'', ''UDP'']"
  by code_simp

section \<open>Schema normalizer: results\<close>

text \<open>
  Claim C2 (scenario A) says that the headers \<open>Flow Packets/s\<close> and \<open>flow_pkts_s\<close> both
  become the column \<open>flow_pkts_s\<close>. The code does not do that: the header is lower-cased
  and its blank replaced before the lookup, so the key \<open>Flow Packets/s\<close> of
  \<open>column_mappings\<close> is never hit, no pattern rule applies, and the column is left as
  \<open>flow_packets/s\<close>. The two files keep two different columns.
\<close>

theorem flow_packets_header_not_unified:
  "columns (snd (normalize_column_names \<lparr>columns = [''Flow Packets/s''], cells = rows\<rparr>))
     = [''flow_packets/s'']
   \<and> columns (snd (normalize_column_names \<lparr>columns = [''flow_pkts_s''], cells = rows\<rparr>))
     = [''flow_pkts_s'']"
  by code_simp

text \<open>
  Claim C9 says that \<open>normalize_column_names\<close> leaves the table it is given unmodified.
  It does not: the function assigns the cleaned labels to \<open>df.columns\<close> of its argument
  before it builds the renamed copy.
\<close>

theorem normalize_column_names_changes_argument:
  "fst (normalize_column_names raw_header_table)
     = \<lparr>columns = [''source_ip'', ''flow_packets/s''], cells = [ [''10.0.0.1'', ''1.5''] ]\<rparr>
   \<and> fst (normalize_column_names raw_header_table) \<noteq> raw_header_table"
  by code_simp

text \<open>
  Claim C9 as amended. The call changes its argument in one way only: each column label is
  replaced by its trimmed, underscored, lower-case form. The cells are untouched, in the
  argument and in the returned table, which is a new value. So the argument is unmodified
  exactly when every label is already in that form.
\<close>

theorem normalize_column_names_effect:
  "fst (normalize_column_names df) = df\<lparr>columns := map clean_name (columns df)\<rparr>
   \<and> cells (snd (normalize_column_names df)) = cells df
   \<and> (fst (normalize_column_names df) = df \<longleftrightarrow> (\<forall>c \<in> set (columns df). clean_name c = c))"
proof -
  have "(df\<lparr>columns := map clean_name (columns df)\<rparr> = df)
      = (map clean_name (columns df) = columns df)"
    by (cases df) simp
  also have "\<dots> = (\<forall>c \<in> set (columns df). clean_name c = c)"
    by (simp add: map_idI map_eq_conv [where g = id, simplified, symmetric] list.map_ident_strong)
  finally show ?thesis by (simp add: normalize_column_names_def Let_def)
qed

theorem normalize_column_names_effect_witness:
  "map clean_name (columns clean_header_table) = columns clean_header_table
   \<and> fst (normalize_column_names clean_header_table) = clean_header_table"
proof -
  have a: "\<forall>c \<in> set (columns clean_header_table). clean_name c = c"
    by code_simp
  have b: "map clean_name (columns clean_header_table) = columns clean_header_table"
    by code_simp
  from a b normalize_column_names_effect [of clean_header_table]
  show ?thesis by blast
qed

section \<open>Dataset cleaner: results\<close>

text \<open>
  Claim C3 says that after the cleaning steps every value of the feature matrix is finite,
  for every input table. The code misses the column in which no value is present: its
  median is \<open>NaN\<close>, so neither \<open>fillna\<close> changes it; its standard deviation is \<open>NaN\<close>, not
  zero, so it is not dropped; its quartiles are \<open>NaN\<close>, so nothing is clipped. The column
  reaches the split, which only selects rows, with every cell missing.
\<close>

theorem all_missing_column_survives_cleaning:
  "advanced_data_cleaning
     [(''flow_duration'', [Fin 1, Fin 2, Fin 3]), (''idle_mean'', [NaN, NaN, NaN])]
   = [(''flow_duration'', [Some 1, Some 2, Some 3]), (''idle_mean'', [None, None, None])]"
  by code_simp

lemma sort_Nil_iff: "sort xs = [] \<longleftrightarrow> xs = []"
  by (metis length_sort length_0_conv)

lemma pred_length_less: "vs \<noteq> [] \<Longrightarrow> length vs - 1 < length vs"
  by (cases vs) simp_all

lemma quantile_interp:
  "quantile q col =
     (if somes col = [] then None
      else Some (interp (sort (somes col)) (q * of_nat (length (somes col) - 1))))"
  by (simp add: quantile_def Let_def sort_Nil_iff)

text \<open>The interpolated value lies between the two sorted values around its position.\<close>

lemma interp_between:
  assumes "sorted vs" and "0 \<le> pos" and "pos \<le> of_nat (length vs - 1)" and "vs \<noteq> []"
  shows "vs ! nat \<lfloor>pos\<rfloor> \<le> interp vs pos"
    and "interp vs pos \<le> vs ! min (nat \<lfloor>pos\<rfloor> + 1) (length vs - 1)"
proof -
  define lo where "lo = nat \<lfloor>pos\<rfloor>"
  define hi where "hi = min (lo + 1) (length vs - 1)"
  define frac where "frac = pos - of_nat lo"
  have lo_pos: "of_nat lo \<le> pos" using assms(2) by (simp add: lo_def)
  have pos_lo: "pos < of_nat lo + 1" using assms(2) by (simp add: lo_def) linarith
  have frac: "0 \<le> frac" "frac \<le> 1" using lo_pos pos_lo by (simp_all add: frac_def)
  have "(of_nat lo :: rat) \<le> of_nat (length vs - 1)" using lo_pos assms(3) by linarith
  then have lo_len: "lo \<le> length vs - 1" by simp
  then have "lo \<le> hi" by (simp add: hi_def)
  have "hi \<le> length vs - 1" by (simp add: hi_def)
  with pred_length_less [OF assms(4)] have "hi < length vs" by linarith
  note \<open>lo \<le> hi\<close> this
  then have d: "0 \<le> vs ! hi - vs ! lo" using assms(1) by (simp add: sorted_nth_mono)
  have eq: "interp vs pos = vs ! lo + (vs ! hi - vs ! lo) * frac"
    unfolding interp_def Let_def lo_def hi_def frac_def ..
  have "0 \<le> (vs ! hi - vs ! lo) * frac" using d frac(1) by simp
  then show "vs ! nat \<lfloor>pos\<rfloor> \<le> interp vs pos"
    unfolding eq lo_def [symmetric] by linarith
  have "(vs ! hi - vs ! lo) * frac \<le> (vs ! hi - vs ! lo) * 1"
    using frac(2) d by (rule mult_left_mono)
  then have "(vs ! hi - vs ! lo) * frac \<le> vs ! hi - vs ! lo" by simp
  then show "interp vs pos \<le> vs ! min (nat \<lfloor>pos\<rfloor> + 1) (length vs - 1)"
    unfolding eq lo_def [symmetric] hi_def [symmetric] by linarith
qed

text \<open>Interpolation over a sorted list grows with the position.\<close>

lemma interp_mono:
  assumes "sorted vs" and "0 \<le> p" and "p \<le> p'" and "p' \<le> of_nat (length vs - 1)" and "vs \<noteq> []"
  shows "interp vs p \<le> interp vs p'"
proof -
  define lo where "lo = nat \<lfloor>p\<rfloor>"
  define lo' where "lo' = nat \<lfloor>p'\<rfloor>"
  have le: "lo \<le> lo'" using assms(3) by (simp add: lo_def lo'_def floor_mono nat_mono)
  have p'0: "0 \<le> p'" using assms by linarith
  have "(of_nat lo' :: rat) \<le> p'" using p'0 by (simp add: lo'_def)
  then have "(of_nat lo' :: rat) \<le> of_nat (length vs - 1)" using assms(4) by linarith
  then have lo'_len: "lo' \<le> length vs - 1" by simp
  show ?thesis
  proof (cases "lo = lo'")
    case True
    define hi where "hi = min (lo + 1) (length vs - 1)"
    have "lo \<le> hi" using lo'_len True by (simp add: hi_def)
    have "hi \<le> length vs - 1" by (simp add: hi_def)
    with pred_length_less [OF assms(5)] have "hi < length vs" by linarith
    note \<open>lo \<le> hi\<close> this
    then have d: "0 \<le> vs ! hi - vs ! lo" using assms(1) by (simp add: sorted_nth_mono)
    have "(vs ! hi - vs ! lo) * (p - of_nat lo) \<le> (vs ! hi - vs ! lo) * (p' - of_nat lo)"
      using d assms(3) by (intro mult_left_mono) simp_all
    moreover have "interp vs p = vs ! lo + (vs ! hi - vs ! lo) * (p - of_nat lo)"
      unfolding interp_def Let_def lo_def hi_def ..
    moreover have "interp vs p' = vs ! lo + (vs ! hi - vs ! lo) * (p' - of_nat lo)"
      unfolding interp_def Let_def hi_def True lo'_def ..
    ultimately show ?thesis by linarith
  next
    case False
    with le have lt: "lo + 1 \<le> lo'" by simp
    have "interp vs p \<le> vs ! min (lo + 1) (length vs - 1)"
      using interp_between(2) [OF assms(1,2) _ assms(5)] assms(3,4) by (simp add: lo_def)
    also have "\<dots> \<le> vs ! lo'"
      using assms(1,5) lt lo'_len by (intro sorted_nth_mono) auto
    also have "\<dots> \<le> interp vs p'"
      using interp_between(1) [OF assms(1) p'0 assms(4,5)] by (simp add: lo'_def)
    finally show ?thesis .
  qed
qed

lemma quartiles_ordered:
  assumes "quantile (1/4) col = Some q1" and "quantile (3/4) col = Some q3"
  shows "q1 \<le> q3"
proof -
  define vs where "vs = sort (somes col)"
  from assms(1) have ne: "somes col \<noteq> []" by (auto simp: quantile_interp split: if_splits)
  then have vne: "vs \<noteq> []" by (metis vs_def length_sort length_0_conv)
  have len: "length vs = length (somes col)" by (simp add: vs_def)
  have q1: "q1 = interp vs (1/4 * of_nat (length vs - 1))"
    and q3: "q3 = interp vs (3/4 * of_nat (length vs - 1))"
    using assms ne by (simp_all add: quantile_interp vs_def)
  have "interp vs (1/4 * of_nat (length vs - 1)) \<le> interp vs (3/4 * of_nat (length vs - 1))"
    by (rule interp_mono) (simp_all add: vs_def vne [unfolded vs_def])
  then show ?thesis by (simp add: q1 q3)
qed

lemma quantile_Some: "Some x \<in> set col \<Longrightarrow> \<exists>v. quantile q col = Some v"
proof -
  assume "Some x \<in> set col"
  then have "x \<in> set (somes col)" by (force simp: somes_def)
  then have "somes col \<noteq> []" by auto
  then show ?thesis by (simp add: quantile_interp)
qed

lemma clip_column_bounds:
  assumes "Some v \<in> set (clip_column col)"
  shows "\<exists>lo hi. lower_bound col = Some lo \<and> upper_bound col = Some hi \<and> lo \<le> v \<and> v \<le> hi"
proof -
  from assms obtain w where w: "w \<in> set col"
    and v: "clip_upper (upper_bound col) (clip_lower (lower_bound col) w) = Some v"
    by (auto simp: clip_column_def)
  have "\<exists>x. w = Some x"
    using v by (cases w) (simp_all add: clip_upper_def clip_lower_def)
  then obtain x where x: "w = Some x" ..
  with w obtain q1 q3 where q: "quantile (1/4) col = Some q1" "quantile (3/4) col = Some q3"
    using quantile_Some by blast
  then have "q1 \<le> q3" by (rule quartiles_ordered)
  with q v x show ?thesis
    by (auto simp: lower_bound_def upper_bound_def clip_upper_def clip_lower_def split: if_splits)
qed

lemma take_rows_subset: "\<forall>i \<in> set idx. i < length col \<Longrightarrow> set (take_rows idx col) \<subseteq> set col"
  by (auto simp: take_rows_def)

lemma length_clip_column: "length (clip_column col) = length col"
  by (simp add: clip_column_def)

text \<open>
  Claim C1 says that the clipping bounds are computed on the training split only and that
  the same bounds are applied to the test split and to inference-time data. The code does
  neither. It takes the quartiles of the whole matrix and clips before it splits: for the
  column \<open>0, 1\<close>, which cleaning leaves as it is, the split gives one training row and one
  test row, and whichever row trains, its quartiles give the bounds \<open>[0, 0]\<close> or \<open>[1, 1]\<close>,
  outside which the other row's value lies. And \<open>predict_with_confidence\<close> hands its batch
  to the model unclipped: the value 10, above the upper bound \<open>9/4\<close> of that column, is
  classified as 10 and not as \<open>9/4\<close>.
\<close>

theorem training_split_bounds_not_used:
  "advanced_data_cleaning [(''flow_duration'', [Fin 0, Fin 1])]
     = [(''flow_duration'', [Some 0, Some 1])]
   \<and> validate_shuffle_split 2 = Inr (1, 1)
   \<and> upper_bound (take_rows [0] [Some 0, Some 1]) = Some 0
   \<and> lower_bound (take_rows [1] [Some 0, Some 1]) = Some 1
   \<and> upper_bound [Some 0, Some 1] = Some (9/4)
   \<and> predict_with_confidence threshold_model [ [10] ] = Inr ([''UDP''], [4/5])
   \<and> predict_with_confidence threshold_model [ [9/4] ] = Inr ([''BENIGN''], [4/5])"
  by code_simp

text \<open>
  Claim C1 as amended. In the cleaned feature matrix every present value \<open>v\<close> of a column
  satisfies \<open>Q1 - 3 * IQR \<le> v \<le> Q3 + 3 * IQR\<close>, where \<open>Q1\<close>, \<open>Q3\<close> and \<open>IQR\<close> are the
  quartiles of that column over the whole matrix, before the split. Both splits are rows
  of the clipped matrix, so the whole-matrix bounds hold in the training and in the test
  split, whichever rows \<open>idx\<close> a split selects. Nothing is claimed for inference-time data.
\<close>

theorem clipped_rows_within_whole_matrix_bounds:
  assumes "\<forall>i \<in> set idx. i < length col"
    and "Some v \<in> set (take_rows idx (clip_column col))"
  shows "\<exists>lo hi. lower_bound col = Some lo \<and> upper_bound col = Some hi \<and> lo \<le> v \<and> v \<le> hi"
proof -
  from assms(1) have "set (take_rows idx (clip_column col)) \<subseteq> set (clip_column col)"
    by (intro take_rows_subset) (simp add: length_clip_column)
  with assms(2) have "Some v \<in> set (clip_column col)" by blast
  then show ?thesis by (rule clip_column_bounds)
qed

theorem clipped_rows_within_whole_matrix_bounds_witness:
  "Some 10 \<in> set (take_rows [4, 0] (clip_column outlier_column))
   \<and> (\<exists>lo hi. lower_bound outlier_column = Some lo \<and> upper_bound outlier_column = Some hi
         \<and> lo \<le> 10 \<and> 10 \<le> hi)
   \<and> lower_bound outlier_column = Some (- 4)
   \<and> upper_bound outlier_column = Some 10"
proof -
  have a: "\<forall>i \<in> set [4, 0]. i < length outlier_column"
    by (simp add: outlier_column_def)
  have b: "Some 10 \<in> set (take_rows [4, 0] (clip_column outlier_column))"
    by code_simp
  have c: "lower_bound outlier_column = Some (- 4)" "upper_bound outlier_column = Some 10"
    by code_simp+
  from clipped_rows_within_whole_matrix_bounds [OF a b] b c show ?thesis by blast
qed

section \<open>Train/test split: results\<close>

lemma n_test_bounds:
  assumes "2 \<le> n"
  shows "0 < nat \<lceil>(1/5 :: rat) * of_nat n\<rceil>" and "nat \<lceil>(1/5 :: rat) * of_nat n\<rceil> < n"
proof -
  have "(0::rat) < 1/5 * of_nat n" using assms by simp
  then show "0 < nat \<lceil>(1/5 :: rat) * of_nat n\<rceil>" by simp
  have "(1/5 :: rat) * of_nat n \<le> of_nat (n - 1)"
  proof -
    have "n \<le> 5 * (n - 1)" using assms by arith
    then have "(of_nat n :: rat) \<le> of_nat (5 * (n - 1))" by (simp only: of_nat_le_iff)
    then have "(of_nat n :: rat) \<le> 5 * of_nat (n - 1)" by simp
    then show ?thesis by simp
  qed
  then have "\<lceil>(1/5 :: rat) * of_nat n\<rceil> \<le> int (n - 1)" by (simp add: ceiling_le_iff)
  then show "nat \<lceil>(1/5 :: rat) * of_nat n\<rceil> < n" using assms by linarith
qed

lemma validate_shuffle_split_ok:
  assumes "2 \<le> n"
  shows "\<exists>n_train n_test. validate_shuffle_split n = Inr (n_train, n_test)
      \<and> 0 < n_train \<and> 0 < n_test \<and> n_train + n_test = n"
  using n_test_bounds [OF assms] by (simp add: validate_shuffle_split_def Let_def)

lemma validate_shuffle_split_small: "n < 2 \<Longrightarrow> validate_shuffle_split n = Inl ValueError"
proof -
  assume "n < 2"
  then consider "n = 0" | "n = 1" by linarith
  then show ?thesis
  proof cases
    case 1
    then show ?thesis by (simp add: validate_shuffle_split_def)
  next
    case 2
    have "\<lceil>(1/5 :: rat)\<rceil> = 1" by (simp add: ceiling_eq_iff)
    with 2 show ?thesis by (simp add: validate_shuffle_split_def)
  qed
qed

text \<open>
  Claim C7 says that whenever the stratified split is infeasible the split does not raise.
  A dataset of a single row is such a dataset: its one class has one member. The
  stratified call raises \<open>ValueError\<close>, since the training set would be empty, and the
  unstratified call in the \<open>except\<close> branch raises it again for the same reason, whatever
  the generator draws.
\<close>

theorem single_row_split_raises:
  "train_test_split in_order_state True [(''flow_duration'', [Some (1 :: rat)])] [''BENIGN''] = Inl ValueError
   \<and> split_with_fallback in_order_state [(''flow_duration'', [Some (1 :: rat)])] [''BENIGN''] = Inl ValueError"
  by (simp add: split_with_fallback_def train_test_split_def validate_shuffle_split_small)

text \<open>
  Claim C7 as amended. For every dataset of at least two rows on which the stratified split
  raises \<open>ValueError\<close>, the split does not raise: it returns the unstratified split, whose
  test rows are the first \<open>n_test\<close> positions of the permutation that the generator seeded
  with 42 draws and whose training rows are the next \<open>n_train\<close>. Both parts are non-empty
  and together have as many rows as the dataset. The result is a function of the dataset
  and of that permutation alone.
\<close>

theorem fallback_split_returns:
  assumes "2 \<le> length y" and "train_test_split rs True X y = Inl ValueError"
  shows "\<exists>n_train n_test.
           validate_shuffle_split (length y) = Inr (n_train, n_test)
           \<and> 0 < n_train \<and> 0 < n_test \<and> n_train + n_test = length y
           \<and> split_with_fallback rs X y =
               Inr (select_rows (take n_train (drop n_test (permutation rs (length y)))) X,
                    select_rows (take n_test (permutation rs (length y))) X,
                    take_rows (take n_train (drop n_test (permutation rs (length y)))) y,
                    take_rows (take n_test (permutation rs (length y))) y)"
proof -
  from validate_shuffle_split_ok [OF assms(1)] obtain n_train n_test
    where v: "validate_shuffle_split (length y) = Inr (n_train, n_test)"
      and pos: "0 < n_train" "0 < n_test" "n_train + n_test = length y"
    by blast
  have "split_with_fallback rs X y = train_test_split rs False X y"
    using assms(2) by (simp add: split_with_fallback_def)
  also have "\<dots> = Inr (select_rows (take n_train (drop n_test (permutation rs (length y)))) X,
                    select_rows (take n_test (permutation rs (length y))) X,
                    take_rows (take n_train (drop n_test (permutation rs (length y)))) y,
                    take_rows (take n_test (permutation rs (length y))) y)"
    by (simp add: train_test_split_def v Let_def)
  finally show ?thesis using v pos by blast
qed

theorem fallback_split_returns_witness:
  "2 \<le> length scenario_c_labels
   \<and> train_test_split in_order_state True scenario_c_features scenario_c_labels = Inl ValueError
   \<and> split_with_fallback in_order_state scenario_c_features scenario_c_labels
      = Inr ([(''flow_duration'', [Some 3, Some 4, Some 5, Some 6, Some 7, Some 8, Some 9])],
             [(''flow_duration'', [Some 1, Some 2])],
             [''DNS'', ''DNS'', ''NTP'', ''NTP'', ''SYN'', ''SYN'', ''UDP''], [''BENIGN'', ''BENIGN''])"
proof -
  have a: "2 \<le> length scenario_c_labels"
    by (simp add: scenario_c_labels_def)
  have b: "train_test_split in_order_state True scenario_c_features scenario_c_labels = Inl ValueError"
    by code_simp
  have v: "validate_shuffle_split (length scenario_c_labels) = Inr (7, 2)" by code_simp
  from fallback_split_returns [OF a b] obtain n_train n_test
    where v': "validate_shuffle_split (length scenario_c_labels) = Inr (n_train, n_test)"
      and r: "split_with_fallback in_order_state scenario_c_features scenario_c_labels
        = Inr (select_rows (take n_train (drop n_test
                   (permutation in_order_state (length scenario_c_labels)))) scenario_c_features,
               select_rows (take n_test
                   (permutation in_order_state (length scenario_c_labels))) scenario_c_features,
               take_rows (take n_train (drop n_test
                   (permutation in_order_state (length scenario_c_labels)))) scenario_c_labels,
               take_rows (take n_test
                   (permutation in_order_state (length scenario_c_labels))) scenario_c_labels)"
    by blast
  from v' have n: "n_train = 7" "n_test = 2" unfolding v by simp_all
  have "split_with_fallback in_order_state scenario_c_features scenario_c_labels
      = Inr ([(''flow_duration'', [Some 3, Some 4, Some 5, Some 6, Some 7, Some 8, Some 9])],
             [(''flow_duration'', [Some 1, Some 2])],
             [''DNS'', ''DNS'', ''NTP'', ''NTP'', ''SYN'', ''SYN'', ''UDP''], [''BENIGN'', ''BENIGN''])"
    unfolding r n by code_simp
  with a b show ?thesis by blast
qed

section \<open>Model search: results\<close>

lemma dict_set_fresh: "k \<notin> fst ` set d \<Longrightarrow> dict_set k v d = d @ [(k, v)]"
  by (induction d) auto

lemma successes_append: "successes (ns @ ms) f = successes ns f @ successes ms f"
  by (simp add: successes_def)

lemma successes_names: "fst ` set (successes ns f) \<subseteq> set ns"
  by (auto simp: successes_def split: option.splits)


lemma distinct_models: "distinct (models n)"
  by (simp add: models_def)

lemma first_highest_None: "first_highest succ = None \<longleftrightarrow> succ = []"
proof
  assume none: "first_highest succ = None"
  show "succ = []"
  proof (rule ccontr)
    assume "succ \<noteq> []"
    then have "snd ` set succ \<noteq> {}" and "finite (snd ` set succ)" by auto
    then have "Max (snd ` set succ) \<in> snd ` set succ" by (rule_tac Max_in)
    then obtain p where p: "p \<in> set succ" "snd p = Max (snd ` set succ)" by auto
    then have "\<forall>q \<in> set succ. snd q \<le> snd p" by simp
    with p(1) none show False unfolding first_highest_def find_None_iff by blast
  qed
next
  assume "succ = []"
  then show "first_highest succ = None" by (simp add: first_highest_def)
qed

lemma first_highest_Some:
  assumes "first_highest succ = Some p"
  shows "p \<in> set succ" and "\<forall>q \<in> set succ. snd q \<le> snd p"
  using assms by (auto simp: first_highest_def find_Some_iff)

lemma find_append:
  "find P (xs @ ys) = (case find P xs of None \<Rightarrow> find P ys | Some x \<Rightarrow> Some x)"
  by (induction xs) auto

lemma find_cong_set: "(\<And>x. x \<in> set xs \<Longrightarrow> P x = Q x) \<Longrightarrow> find P xs = find Q xs"
  by (induction xs) auto

lemma first_highest_snoc:
  "first_highest (succ @ [(n, f)]) =
     (if \<forall>q \<in> set succ. snd q < f then Some (n, f) else first_highest succ)"
proof (cases "\<forall>q \<in> set succ. snd q < f")
  case True
  then have "find (\<lambda>p. \<forall>q \<in> set (succ @ [(n, f)]). snd q \<le> snd p) succ = None"
    by (auto simp: find_None_iff)
  moreover from True have "\<forall>q \<in> set (succ @ [(n, f)]). snd q \<le> f" by auto
  ultimately show ?thesis using True by (simp add: first_highest_def find_append)
next
  case False
  then obtain q0 where q0: "q0 \<in> set succ" "f \<le> snd q0" by auto
  have same: "(\<forall>q \<in> set (succ @ [(n, f)]). snd q \<le> snd p) = (\<forall>q \<in> set succ. snd q \<le> snd p)"
    if "p \<in> set succ" for p
    using q0 by auto
  have "find (\<lambda>p. \<forall>q \<in> set (succ @ [(n, f)]). snd q \<le> snd p) succ = first_highest succ"
    unfolding first_highest_def by (rule find_cong_set) (rule same)
  moreover from q0 have "first_highest succ \<noteq> None" by (auto simp: first_highest_None)
  ultimately show ?thesis using False
    by (auto simp: first_highest_def find_append split: option.splits)
qed

lemma provisional_score:
  "fst (snd (provisional_best succ)) = Max (insert 0 (snd ` set succ))"
proof (cases "first_highest succ")
  case None
  then have "succ = []" by (simp add: first_highest_None)
  with None show ?thesis by (simp add: provisional_best_def)
next
  case (Some p)
  then have mem: "p \<in> set succ" and top: "\<forall>q \<in> set succ. snd q \<le> snd p"
    by (auto dest: first_highest_Some)
  have "Max (insert 0 (snd ` set succ)) = max 0 (snd p)"
  proof (rule Max_eqI)
    show "finite (insert 0 (snd ` set succ))" by simp
    show "y \<le> max 0 (snd p)" if "y \<in> insert 0 (snd ` set succ)" for y
      using that top by (auto simp: max_def)
    show "max 0 (snd p) \<in> insert 0 (snd ` set succ)" using mem by (auto simp: max_def)
  qed
  with Some show ?thesis by (cases p) (auto simp: provisional_best_def max_def)
qed

lemma provisional_best_snoc:
  "provisional_best (succ @ [(n, f)]) =
     (if fst (snd (provisional_best succ)) < f then (Some (Fitted n), f, n)
      else provisional_best succ)"
proof (cases "fst (snd (provisional_best succ)) < f")
  case True
  then have gt: "Max (insert 0 (snd ` set succ)) < f" by (simp add: provisional_score)
  then have "\<forall>q \<in> set succ. snd q < f" and "0 < f" by auto
  with True show ?thesis by (simp add: provisional_best_def first_highest_snoc)
next
  case False
  then have le: "f \<le> Max (insert 0 (snd ` set succ))" by (metis provisional_score not_less)
  show ?thesis
  proof (cases "\<forall>q \<in> set succ. snd q < f")
    case all: True
    have "Max (insert 0 (snd ` set succ)) \<in> insert 0 (snd ` set succ)"
      by (rule Max_in) auto
    with all le have "f \<le> 0" by auto
    moreover have "provisional_best succ = (None, 0, [])"
    proof (cases "first_highest succ")
      case None
      then show ?thesis by (simp add: provisional_best_def)
    next
      case (Some p)
      then have "p \<in> set succ" by (auto dest: first_highest_Some)
      with all \<open>f \<le> 0\<close> have "snd p < 0" by force
      with Some show ?thesis by (cases p) (simp add: provisional_best_def)
    qed
    ultimately show ?thesis using False all
      by (simp add: provisional_best_def first_highest_snoc)
  next
    case False
    then have "first_highest (succ @ [(n, f)]) = first_highest succ"
      unfolding first_highest_snoc by (simp only: if_False)
    then have "provisional_best (succ @ [(n, f)]) = provisional_best succ"
      by (simp add: provisional_best_def)
    with \<open>\<not> fst (snd (provisional_best succ)) < f\<close> show ?thesis by simp
  qed
qed

lemma train_one_step:
  assumes "results st = successes ns f" and "selection st = provisional_best (successes ns f)"
    and "n \<notin> set ns"
  shows "results (train_one f st n) = successes (ns @ [n]) f
    \<and> selection (train_one f st n) = provisional_best (successes (ns @ [n]) f)"
proof (cases "f n")
  case None
  with assms show ?thesis by (simp add: train_one_def successes_append) (simp add: successes_def)
next
  case (Some f1)
  have fresh: "n \<notin> fst ` set (successes ns f)" using assms(3) successes_names by blast
  have snoc: "successes (ns @ [n]) f = successes ns f @ [(n, f1)]"
    using Some by (simp add: successes_append) (simp add: successes_def)
  have "best_score st = fst (snd (provisional_best (successes ns f)))"
    using assms(2) [symmetric] by (simp add: selection_def)
  with assms(1,2) Some fresh show ?thesis
    by (auto simp: train_one_def Let_def snoc dict_set_fresh provisional_best_snoc selection_def)
qed

lemma search_loop:
  "distinct ns \<Longrightarrow>
   results (foldl (train_one f) initial_state ns) = successes ns f
   \<and> selection (foldl (train_one f) initial_state ns) = provisional_best (successes ns f)"
proof (induction ns rule: rev_induct)
  case Nil
  show ?case
    by (simp add: initial_state_def successes_def selection_def provisional_best_def first_highest_def)
next
  case (snoc n ns)
  then have "distinct ns" and "n \<notin> set ns" by auto
  with snoc.IH show ?case by (simp add: train_one_step)
qed

lemma top_models_dominate:
  "\<forall>p \<in> set (top_models res). \<forall>q \<in> set res - set (top_models res). snd q \<le> snd p"
proof (intro ballI)
  fix p q
  assume p: "p \<in> set (top_models res)" and q: "q \<in> set res - set (top_models res)"
  define s where "s = sort_key (\<lambda>x. - snd x) res"
  have split: "s = take 3 s @ drop 3 s" by simp
  have "sorted (map (\<lambda>x. - snd x) s)" by (simp add: s_def)
  then have "sorted (map (\<lambda>x. - snd x) (take 3 s) @ map (\<lambda>x. - snd x) (drop 3 s))"
    by (metis split map_append)
  then have ord: "\<forall>a \<in> set (take 3 s). \<forall>b \<in> set (drop 3 s). - snd a \<le> - snd b"
    by (auto simp: sorted_append)
  have "set s = set res" by (simp add: s_def)
  with q have "q \<in> set (take 3 s) \<union> set (drop 3 s)" by (metis DiffD1 set_append split)
  with q have "q \<in> set (drop 3 s)" by (auto simp: top_models_def s_def)
  with ord p show "snd q \<le> snd p" by (auto simp: top_models_def s_def)
qed

lemma length_top_models: "3 \<le> length res \<Longrightarrow> length (top_models res) = 3"
  by (simp add: top_models_def)

text \<open>
  Claim C4 says that the candidate with the highest held-out weighted F1 is selected, ties
  going to the first learner evaluated. The loop starts from \<open>best_score = 0\<close> and replaces
  the best only on a strictly greater F1, so a candidate whose F1 is 0 is never selected:
  when XGBoost is the one learner that succeeds and its F1 is 0, it has the highest F1 and
  no model is selected.
\<close>

theorem zero_f1_candidate_not_selected:
  "train_best_model 100 only_xgboost_zero ensemble_fails =
     Inr \<lparr>best_model = None, best_score = 0, best_model_name = [], results = [(''XGBoost'', 0)]\<rparr>
   \<and> successes (models 100) only_xgboost_zero = [(''XGBoost'', 0)]"
  by (simp add: train_best_model_def models_def train_one_def only_xgboost_zero_def
      initial_state_def successes_def)

text \<open>
  Claim C4 as amended. Provided that fitting and evaluating the ensemble does not raise,
  \<open>train_best_model\<close> returns, and what it selects is this. The provisional best is the
  first evaluated among the candidates of highest held-out weighted F1 if that F1 is
  positive, and no model with score 0 otherwise. When at least three candidates succeeded,
  a soft-voting ensemble of the top three by held-out F1 is built and evaluated (three
  members, none with a lower F1 than a candidate left out), and it becomes the selected
  best if and only if its F1 strictly exceeds the provisional best score.
\<close>

theorem train_best_model_selection:
  assumes "3 \<le> length (successes (models n_train) fit_and_score) \<longrightarrow>
           ensemble_score (voting_models (successes (models n_train) fit_and_score)) = Some f1_ensemble"
  shows "(\<exists>st. train_best_model n_train fit_and_score ensemble_score = Inr st
     \<and> selection st =
         (if 3 \<le> length (successes (models n_train) fit_and_score)
             \<and> fst (snd (provisional_best (successes (models n_train) fit_and_score))) < f1_ensemble
          then (Some (Voting (voting_models (successes (models n_train) fit_and_score))),
                f1_ensemble, ''Ensemble'')
          else provisional_best (successes (models n_train) fit_and_score)))
     \<and> (3 \<le> length (successes (models n_train) fit_and_score) \<longrightarrow>
          length (top_models (successes (models n_train) fit_and_score)) = 3)
     \<and> (\<forall>p \<in> set (top_models (successes (models n_train) fit_and_score)).
          \<forall>q \<in> set (successes (models n_train) fit_and_score)
                 - set (top_models (successes (models n_train) fit_and_score)).
            snd q \<le> snd p)"
proof -
  define st where "st = foldl (train_one fit_and_score) initial_state (models n_train)"
  have res: "results st = successes (models n_train) fit_and_score"
    and sel: "selection st = provisional_best (successes (models n_train) fit_and_score)"
    using search_loop [OF distinct_models, of fit_and_score n_train] by (simp_all add: st_def)
  have score: "best_score st = fst (snd (provisional_best (successes (models n_train) fit_and_score)))"
    using sel [symmetric] by (simp add: selection_def)
  have main: "\<exists>st. train_best_model n_train fit_and_score ensemble_score = Inr st
     \<and> selection st =
         (if 3 \<le> length (successes (models n_train) fit_and_score)
             \<and> fst (snd (provisional_best (successes (models n_train) fit_and_score))) < f1_ensemble
          then (Some (Voting (voting_models (successes (models n_train) fit_and_score))),
                f1_ensemble, ''Ensemble'')
          else provisional_best (successes (models n_train) fit_and_score))"
  proof (cases "3 \<le> length (successes (models n_train) fit_and_score)")
    case True
    with assms have "ensemble_score (voting_models (results st)) = Some f1_ensemble"
      by (simp add: res)
    with True res sel score show ?thesis
      unfolding train_best_model_def st_def [symmetric]
      by (simp add: Let_def selection_def)
  next
    case False
    with res sel show ?thesis
      unfolding train_best_model_def st_def [symmetric] by (simp add: Let_def)
  qed
  with length_top_models [of "successes (models n_train) fit_and_score"]
    top_models_dominate [of "successes (models n_train) fit_and_score"]
  show ?thesis by blast
qed

theorem train_best_model_selection_witness:
  "3 \<le> length (successes (models 100) example_scores)
   \<and> (\<exists>st. train_best_model 100 example_scores example_ensemble = Inr st
        \<and> selection st =
           (Some (Voting [(''XGBoost'', Fitted ''XGBoost''), (''Extra_Trees'', Fitted ''Extra Trees''),
                          (''Optimized_Random_Forest'', Fitted ''Optimized Random Forest'')]),
            3/4, ''Ensemble''))"
proof -
  have s: "successes (models 100) example_scores =
      [(''Optimized Random Forest'', 1/4), (''XGBoost'', 1/2), (''Extra Trees'', 1/2),
       (''Optimized SVM'', 1/4)]"
    by (simp add: successes_def models_def example_scores_def)
  have h: "3 \<le> length (successes (models 100) example_scores) \<longrightarrow>
      example_ensemble (voting_models (successes (models 100) example_scores)) = Some (3/4)"
    by (simp add: example_ensemble_def)
  have p: "provisional_best (successes (models 100) example_scores)
      = (Some (Fitted ''XGBoost''), 1/2, ''XGBoost'')"
    unfolding s by (simp add: provisional_best_def first_highest_def)
  have v: "voting_models (successes (models 100) example_scores) =
      [(''XGBoost'', Fitted ''XGBoost''), (''Extra_Trees'', Fitted ''Extra Trees''),
       (''Optimized_Random_Forest'', Fitted ''Optimized Random Forest'')]"
    unfolding s by (simp add: voting_models_def top_models_def replace_blank_def)
  from train_best_model_selection [where n_train = 100 and fit_and_score = example_scores
      and ensemble_score = example_ensemble and ?f1_ensemble = "3/4", OF h]
  have "\<exists>st. train_best_model 100 example_scores example_ensemble = Inr st
      \<and> selection st =
          (if 3 \<le> length (successes (models 100) example_scores)
              \<and> fst (snd (provisional_best (successes (models 100) example_scores))) < 3/4
           then (Some (Voting (voting_models (successes (models 100) example_scores))),
                 3/4, ''Ensemble'')
           else provisional_best (successes (models 100) example_scores))"
    by blast
  then show ?thesis
    unfolding p v by (simp add: s)
qed

section \<open>Artifact store: results\<close>

lemma bundle_paths_distinct:
  "name @ ''.pkl'' \<noteq> name @ ''_scaler.pkl''"
  "name @ ''.pkl'' \<noteq> name @ ''_metadata.pkl''"
  "name @ ''_scaler.pkl'' \<noteq> name @ ''_metadata.pkl''"
  by simp_all

text \<open>
  Claim C10 says that \<open>save_model_and_scaler\<close> persists the complete bundle or nothing
  and never writes a partial bundle. Nothing in the function undoes a dump: when the
  model and the scaler are dumped and the dump of the metadata raises, the exception
  leaves the function with the model file and the scaler file written and no metadata
  file.
\<close>

theorem failed_metadata_dump_leaves_partial_bundle:
  "snd (save_model_and_scaler metadata_dump_fails fitted_analysis ''unified_ddos_best_model'' Map.empty)
     = Inl DumpError
   \<and> fst (save_model_and_scaler metadata_dump_fails fitted_analysis ''unified_ddos_best_model'' Map.empty)
       ''unified_ddos_best_model.pkl'' = Some (Pickle ''XGBClassifier'')
   \<and> fst (save_model_and_scaler metadata_dump_fails fitted_analysis ''unified_ddos_best_model'' Map.empty)
       ''unified_ddos_best_model_scaler.pkl'' = Some (Pickle ''RobustScaler'')
   \<and> fst (save_model_and_scaler metadata_dump_fails fitted_analysis ''unified_ddos_best_model'' Map.empty)
       ''unified_ddos_best_model_metadata.pkl'' = None"
  by (simp add: save_model_and_scaler_def dump_def metadata_dump_fails_def fitted_analysis_def)

text \<open>
  Claim C10 as amended. When either \<open>best_model\<close> or \<open>scaler\<close> is unset,
  \<open>save_model_and_scaler\<close> writes no file and returns three \<open>None\<close>. When both are set
  and each of the three dumps succeeds, the three paths (pairwise distinct) hold the model,
  the scaler and the metadata, no other path is touched, and the three paths are returned.
  When a dump raises, the exception leaves the function and the units dumped before it
  stay written: nothing after a failed model dump, the model after a failed scaler dump,
  the model and the scaler after a failed metadata dump.
\<close>

theorem save_model_and_scaler_outcomes:
  "(self_best_model self = None \<or> self_scaler self = None \<longrightarrow>
      save_model_and_scaler can_dump self name fs = (fs, Inr (None, None, None)))
   \<and> (\<forall>model scaler. self_best_model self = Some model \<and> self_scaler self = Some scaler \<longrightarrow>
        (can_dump (Pickle model) (name @ ''.pkl'')
           \<and> can_dump (Pickle scaler) (name @ ''_scaler.pkl'')
           \<and> can_dump (PickleMetadata (metadata_of self)) (name @ ''_metadata.pkl'') \<longrightarrow>
           snd (save_model_and_scaler can_dump self name fs)
             = Inr (Some (name @ ''.pkl''), Some (name @ ''_scaler.pkl''),
                    Some (name @ ''_metadata.pkl''))
           \<and> fst (save_model_and_scaler can_dump self name fs) (name @ ''.pkl'')
               = Some (Pickle model)
           \<and> fst (save_model_and_scaler can_dump self name fs) (name @ ''_scaler.pkl'')
               = Some (Pickle scaler)
           \<and> fst (save_model_and_scaler can_dump self name fs) (name @ ''_metadata.pkl'')
               = Some (PickleMetadata (metadata_of self))
           \<and> (\<forall>p. p \<notin> {name @ ''.pkl'', name @ ''_scaler.pkl'', name @ ''_metadata.pkl''} \<longrightarrow>
                 fst (save_model_and_scaler can_dump self name fs) p = fs p))
        \<and> (\<not> can_dump (Pickle model) (name @ ''.pkl'') \<longrightarrow>
             save_model_and_scaler can_dump self name fs = (fs, Inl DumpError))
        \<and> (can_dump (Pickle model) (name @ ''.pkl'')
             \<and> \<not> can_dump (Pickle scaler) (name @ ''_scaler.pkl'') \<longrightarrow>
             save_model_and_scaler can_dump self name fs
               = (fs(name @ ''.pkl'' \<mapsto> Pickle model), Inl DumpError))
        \<and> (can_dump (Pickle model) (name @ ''.pkl'')
             \<and> can_dump (Pickle scaler) (name @ ''_scaler.pkl'')
             \<and> \<not> can_dump (PickleMetadata (metadata_of self)) (name @ ''_metadata.pkl'') \<longrightarrow>
             save_model_and_scaler can_dump self name fs
               = (fs(name @ ''.pkl'' \<mapsto> Pickle model, name @ ''_scaler.pkl'' \<mapsto> Pickle scaler),
                  Inl DumpError)))
   \<and> name @ ''.pkl'' \<noteq> name @ ''_scaler.pkl''
   \<and> name @ ''.pkl'' \<noteq> name @ ''_metadata.pkl''
   \<and> name @ ''_scaler.pkl'' \<noteq> name @ ''_metadata.pkl''"
  by (auto simp: save_model_and_scaler_def dump_def Let_def split: option.splits)

theorem save_model_and_scaler_outcomes_witness:
  "self_best_model fitted_analysis = Some ''XGBClassifier''
   \<and> self_scaler fitted_analysis = Some ''RobustScaler''
   \<and> every_dump_succeeds (Pickle ''XGBClassifier'') ''unified_ddos_best_model.pkl''
   \<and> every_dump_succeeds (Pickle ''RobustScaler'') ''unified_ddos_best_model_scaler.pkl''
   \<and> every_dump_succeeds (PickleMetadata (metadata_of fitted_analysis))
        ''unified_ddos_best_model_metadata.pkl''
   \<and> snd (save_model_and_scaler every_dump_succeeds fitted_analysis ''unified_ddos_best_model'' Map.empty)
       = Inr (Some ''unified_ddos_best_model.pkl'', Some ''unified_ddos_best_model_scaler.pkl'',
              Some ''unified_ddos_best_model_metadata.pkl'')
   \<and> fst (save_model_and_scaler every_dump_succeeds fitted_analysis ''unified_ddos_best_model'' Map.empty)
         ''unified_ddos_best_model_scaler.pkl'' = Some (Pickle ''RobustScaler'')
   \<and> fst (save_model_and_scaler every_dump_succeeds fitted_analysis ''unified_ddos_best_model'' Map.empty)
         ''unified_ddos_best_model_metadata.pkl'' = Some (PickleMetadata (metadata_of fitted_analysis))"
proof -
  have a: "self_best_model fitted_analysis = Some ''XGBClassifier''
      \<and> self_scaler fitted_analysis = Some ''RobustScaler''"
    by (simp add: fitted_analysis_def)
  have b: "every_dump_succeeds (Pickle ''XGBClassifier'') ''unified_ddos_best_model.pkl''
      \<and> every_dump_succeeds (Pickle ''RobustScaler'') ''unified_ddos_best_model_scaler.pkl''
      \<and> every_dump_succeeds (PickleMetadata (metadata_of fitted_analysis))
           ''unified_ddos_best_model_metadata.pkl''"
    by (simp add: every_dump_succeeds_def)
  from save_model_and_scaler_outcomes
    [of fitted_analysis every_dump_succeeds "''unified_ddos_best_model''" Map.empty] a b
  show ?thesis by simp
qed

section \<open>Inference: results\<close>

lemma row_max_Max: "row \<noteq> [] \<Longrightarrow> row_max row = Inr (Max (set row))"
  by (cases row) (simp_all add: Max.set_eq_fold [symmetric])

lemma max_axis1_Max:
  "\<forall>row \<in> set rows. row \<noteq> [] \<Longrightarrow> max_axis1 rows = Inr (map (\<lambda>row. Max (set row)) rows)"
  by (induction rows) (simp_all add: row_max_Max)

text \<open>
  Claim C8. For every batch and every supported model, \<open>predict_with_confidence\<close> returns
  one confidence per row, each in \<open>[0, 1]\<close>: the maximum class probability of the row
  when the model has \<open>predict_proba\<close>, the constant 0.8 otherwise.
\<close>

theorem confidence_in_unit_interval:
  assumes "supported_model m X"
  shows "\<exists>predictions confidences.
           predict_with_confidence m X = Inr (predictions, confidences)
           \<and> predictions = predict m X
           \<and> length confidences = length X
           \<and> (\<forall>c \<in> set confidences. 0 \<le> c \<and> c \<le> 1)
           \<and> (case predict_proba m of
                 Some proba \<Rightarrow> confidences = map (\<lambda>row. Max (set row)) (proba X)
               | None \<Rightarrow> confidences = replicate (length X) (4/5))"
proof (cases "predict_proba m")
  case None
  with assms show ?thesis
    by (simp add: predict_with_confidence_def supported_model_def)
next
  case (Some proba)
  with assms have len: "length (proba X) = length X"
    and rows: "\<forall>row \<in> set (proba X). row \<noteq> [] \<and> (\<forall>p \<in> set row. 0 \<le> p \<and> p \<le> 1)"
    by (simp_all add: supported_model_def)
  from rows have "max_axis1 (proba X) = Inr (map (\<lambda>row. Max (set row)) (proba X))"
    by (intro max_axis1_Max) blast
  moreover have "0 \<le> Max (set row) \<and> Max (set row) \<le> 1" if "row \<in> set (proba X)" for row
  proof -
    from that rows have ne: "row \<noteq> []" and b: "\<forall>p \<in> set row. 0 \<le> p \<and> p \<le> 1" by auto
    from ne have "Max (set row) \<in> set row" by (intro Max_in) auto
    with b show ?thesis by blast
  qed
  ultimately show ?thesis using Some len
    by (auto simp: predict_with_confidence_def)
qed

theorem confidence_in_unit_interval_witness:
  "supported_model two_class_model [ [1], [2 :: rat] ]
   \<and> predict_with_confidence two_class_model [ [1], [2 :: rat] ]
       = Inr ([''BENIGN'', ''BENIGN''], [7/10, 7/10])"
proof -
  have s: "supported_model two_class_model [ [1], [2 :: rat] ]"
    by (simp add: supported_model_def two_class_model_def)
  from confidence_in_unit_interval [OF s] s show ?thesis
    by (auto simp: two_class_model_def)
qed

end
